theory Spec2Isabelle
  imports Complex_Main
begin

section \<open>Python strings\<close>

text \<open>
  A Python \<open>str\<close> is a sequence of Unicode code points. A code point is modelled as a
  natural number and a string as the list of its code points, so that \<open>len\<close>,
  \<open>split\<close>, \<open>strip\<close> and \<open>replace\<close> count what Python counts. \<open>ustr\<close> reads an
  ASCII literal as such a string.
\<close>

type_synonym codepoint = nat
type_synonym ustring = "codepoint list"

definition ustr :: "string \<Rightarrow> ustring" where
  "ustr s = map of_char s"

text \<open>
  \<open>str.isspace\<close> of one code point: the code points CPython treats as whitespace
  (TAB, LF, VT, FF, CR, the separators U+001C to U+001F, SPACE, NEL, NBSP, U+1680,
  U+2000 to U+200A, U+2028, U+2029, U+202F, U+205F and U+3000).
\<close>

definition isspace :: "codepoint \<Rightarrow> bool" where
  "isspace c = (c \<in> set [9, 10, 11, 12, 13, 28, 29, 30, 31, 32, 133, 160, 5760,
      8192, 8193, 8194, 8195, 8196, 8197, 8198, 8199, 8200, 8201, 8202,
      8232, 8233, 8239, 8287, 12288])"

text \<open>\<open>s.strip()\<close>: leading and trailing whitespace removed.\<close>

definition lstrip :: "ustring \<Rightarrow> ustring" where
  "lstrip s = dropWhile isspace s"

definition rstrip :: "ustring \<Rightarrow> ustring" where
  "rstrip s = rev (dropWhile isspace (rev s))"

definition strip :: "ustring \<Rightarrow> ustring" where
  "strip s = rstrip (lstrip s)"

text \<open>
  \<open>s.split(sep)\<close> for a separator of one code point: the pieces between the
  occurrences of \<open>sep\<close>, empty pieces included, so a string with \<open>n\<close> separators
  has \<open>n + 1\<close> pieces and the empty string has the one piece \<open>""\<close>. A character
  that is not the separator goes to the front of the first piece of the rest (the rest
  always has a first piece).
\<close>

fun split :: "codepoint \<Rightarrow> ustring \<Rightarrow> ustring list" where
  "split sep [] = [[]]"
| "split sep (c # cs) =
     (if c = sep then [] # split sep cs
      else (case split sep cs of p # ps \<Rightarrow> (c # p) # ps | [] \<Rightarrow> [[c]]))"

text \<open>\<open>sep.join(parts)\<close> for a separator of one code point.\<close>

fun join :: "codepoint \<Rightarrow> ustring list \<Rightarrow> ustring" where
  "join sep [] = []"
| "join sep [p] = p"
| "join sep (p # q # ps) = p @ sep # join sep (q # ps)"

text \<open>\<open>s.replace(old, new)\<close> for \<open>old\<close> and \<open>new\<close> of one code point each.\<close>

definition replace :: "codepoint \<Rightarrow> codepoint \<Rightarrow> ustring \<Rightarrow> ustring" where
  "replace old new s = map (\<lambda>c. if c = old then new else c) s"

abbreviation comma :: codepoint where "comma \<equiv> 44"
abbreviation underscore :: codepoint where "underscore \<equiv> 95"

section \<open>Python sequence operations that can raise\<close>

datatype py_error = IndexError | ValueError

text \<open>
  The subscript \<open>xs[i]\<close> of a list: an index from \<open>0\<close> to \<open>len(xs) - 1\<close> reads from
  the front, an index from \<open>-len(xs)\<close> to \<open>-1\<close> reads from the back, and any other
  index raises \<open>IndexError\<close>.
\<close>

definition getitem :: "'a list \<Rightarrow> int \<Rightarrow> py_error + 'a" where
  "getitem xs i =
     (if 0 \<le> i \<and> i < int (length xs) then Inr (xs ! nat i)
      else if i < 0 \<and> - int (length xs) \<le> i then Inr (xs ! nat (int (length xs) + i))
      else Inl IndexError)"

text \<open>\<open>a, b, *rest = xs\<close>: raises ValueError when \<open>xs\<close> has fewer than two items.\<close>

fun unpack2 :: "'a list \<Rightarrow> py_error + ('a \<times> 'a \<times> 'a list)" where
  "unpack2 (a # b # rest) = Inr (a, b, rest)"
| "unpack2 _ = Inl ValueError"

section \<open>Location parsing\<close>

text \<open>
  The value of a location cell is a string or missing (\<open>pd.isna\<close>): \<open>None\<close> is the
  missing cell. The result is the Series with the fields \<open>pays\<close>, \<open>ville\<close> and
  \<open>musee\<close>, each a string or \<open>None\<close>.
\<close>

record parsed_location =
  pays :: "ustring option"
  ville :: "ustring option"
  musee :: "ustring option"

definition all_null :: parsed_location where
  "all_null = \<lparr>pays = None, ville = None, musee = None\<rparr>"

text \<open>\<open>parse_location\<close> of \<open>carte.py\<close>: the country is the last of the remaining parts.\<close>

definition parse_location_carte :: "ustring option \<Rightarrow> py_error + parsed_location" where
  "parse_location_carte loc =
     (case loc of
        None \<Rightarrow> Inr \<lparr>pays = None, ville = None, musee = None\<rparr>
      | Some s \<Rightarrow>
          (let parts = map strip (split comma s) in
           if length parts \<ge> 2 then
             (case unpack2 parts of
                Inl e \<Rightarrow> Inl e
              | Inr (m, v, rest) \<Rightarrow>
                  (if rest \<noteq> [] then
                     (case getitem rest (- 1) of
                        Inl e \<Rightarrow> Inl e
                      | Inr p \<Rightarrow> Inr \<lparr>pays = Some p, ville = Some v, musee = Some m\<rparr>)
                   else Inr \<lparr>pays = None, ville = Some v, musee = Some m\<rparr>))
           else if length parts = 1 then
             (case getitem parts 0 of
                Inl e \<Rightarrow> Inl e
              | Inr m \<Rightarrow> Inr \<lparr>pays = None, ville = None, musee = Some m\<rparr>)
           else Inr \<lparr>pays = None, ville = None, musee = None\<rparr>))"

text \<open>
  \<open>parse_location\<close> of \<open>pages/carte_musees.py\<close>: the country is the third part when
  there is one.
\<close>

definition parse_location_carte_musees :: "ustring option \<Rightarrow> py_error + parsed_location" where
  "parse_location_carte_musees loc =
     (case loc of
        None \<Rightarrow> Inr \<lparr>pays = None, ville = None, musee = None\<rparr>
      | Some s \<Rightarrow>
          (let parts = map strip (split comma s) in
           if length parts \<ge> 2 then
             (case getitem parts 0 of
                Inl e \<Rightarrow> Inl e
              | Inr m \<Rightarrow>
                  (case getitem parts 1 of
                     Inl e \<Rightarrow> Inl e
                   | Inr v \<Rightarrow>
                       (if length parts \<ge> 3 then
                          (case getitem parts 2 of
                             Inl e \<Rightarrow> Inl e
                           | Inr p \<Rightarrow> Inr \<lparr>pays = Some p, ville = Some v, musee = Some m\<rparr>)
                        else Inr \<lparr>pays = None, ville = Some v, musee = Some m\<rparr>)))
           else if length parts = 1 then
             (case getitem parts 0 of
                Inl e \<Rightarrow> Inl e
              | Inr m \<Rightarrow> Inr \<lparr>pays = None, ville = None, musee = Some m\<rparr>)
           else Inr \<lparr>pays = None, ville = None, musee = None\<rparr>))"

section \<open>Column-name normalisation\<close>

text \<open>
  \<open>_normalize_col\<close> reads three tables of the Unicode database, which belong to Python
  and not to this program: \<open>unicodedata.normalize("NFKD", s)\<close>,
  \<open>unicodedata.combining(ch)\<close> (the canonical combining class, 0 for a character that
  is not a combining mark) and \<open>str.lower\<close>. They are parameters of the model.
\<close>

record unicode_data =
  nfkd :: "ustring \<Rightarrow> ustring"
  combining :: "codepoint \<Rightarrow> nat"
  lower :: "ustring \<Rightarrow> ustring"

text \<open>
  The characters the loop replaces by an underscore, in the loop's order:
  space, \<open>/\<close>, \<open>>\<close>, \<open>-\<close>, \<open>.\<close>, \<open>,\<close>, \<open>;\<close>, \<open>:\<close>, \<open>(\<close>, \<open>)\<close>, the single quote and the
  double quote.
\<close>

definition separators :: "codepoint list" where
  "separators = [32, 47, 62, 45, 46, 44, 59, 58, 40, 41, 39, 34]"

text \<open>
  The first steps of \<open>_normalize_col\<close>: NFKD, the combining marks dropped, \<open>lower()\<close>,
  \<open>strip()\<close>.
\<close>

definition lowered :: "unicode_data \<Rightarrow> ustring \<Rightarrow> ustring" where
  "lowered U name =
     (let s = nfkd U name;
          s = filter (\<lambda>ch. combining U ch = 0) s
      in strip (lower U s))"

text \<open>The loop \<open>for ch in (...): s = s.replace(ch, "_")\<close>.\<close>

definition replace_separators :: "ustring \<Rightarrow> ustring" where
  "replace_separators s = fold (\<lambda>ch s. replace ch underscore s) separators s"

definition normalize_col :: "unicode_data \<Rightarrow> ustring \<Rightarrow> ustring" where
  "normalize_col U name =
     (let s = lowered U name;
          s = replace_separators s;
          parts = filter (\<lambda>p. p \<noteq> []) (split underscore s)
      in join underscore parts)"

text \<open>
  The pattern \<open>segment(_segment)*\<close>: the string is empty, or every piece between its
  underscores is non-empty and made of characters that satisfy \<open>ok\<close>.
\<close>

definition is_canonical :: "(codepoint \<Rightarrow> bool) \<Rightarrow> ustring \<Rightarrow> bool" where
  "is_canonical ok r =
     (r = [] \<or> list_all (\<lambda>p. p \<noteq> [] \<and> list_all ok p) (split underscore r))"

text \<open>A character of \<open>[a-z0-9]\<close>.\<close>

definition lower_alnum :: "codepoint \<Rightarrow> bool" where
  "lower_alnum c = ((97 \<le> c \<and> c \<le> 122) \<or> (48 \<le> c \<and> c \<le> 57))"

text \<open>
  A fragment of the Unicode tables, for evaluating \<open>_normalize_col\<close> on concrete
  names: it agrees with Python on strings over ASCII and the letters
  \<open>U+00C9\<close>, \<open>U+00E0\<close>, \<open>U+00E2\<close>, \<open>U+00E7\<close>, \<open>U+00E8\<close>, \<open>U+00E9\<close>, \<open>U+00EA\<close> of the French
  column names. NFKD splits each of these letters into its base letter and one combining
  mark (grave \<open>U+0300\<close>, acute \<open>U+0301\<close>, circumflex \<open>U+0302\<close>, cedilla \<open>U+0327\<close>) and
  leaves ASCII unchanged; the marks have the combining classes 230 and 202; \<open>lower\<close>
  maps \<open>A-Z\<close> to \<open>a-z\<close>.
\<close>

definition decompose :: "codepoint \<Rightarrow> ustring" where
  "decompose c =
     (if c = 201 then [69, 769]
      else if c = 224 then [97, 768]
      else if c = 226 then [97, 770]
      else if c = 231 then [99, 807]
      else if c = 232 then [101, 768]
      else if c = 233 then [101, 769]
      else if c = 234 then [101, 770]
      else [c])"

definition ascii_lower :: "codepoint \<Rightarrow> codepoint" where
  "ascii_lower c = (if 65 \<le> c \<and> c \<le> 90 then c + 32 else c)"

definition unicode_fragment :: unicode_data where
  "unicode_fragment =
     \<lparr>nfkd = (\<lambda>s. concat (map decompose s)),
      combining = (\<lambda>c. if c \<in> {768, 769, 770} then 230 else if c = 807 then 202 else 0),
      lower = map ascii_lower\<rparr>"

section \<open>Geocoding of the distinct cities\<close>

text \<open>
  A coordinate is a Python float that the program stores and copies but never computes
  with; it is modelled by the real number its decimal literal denotes.
\<close>

definition manual_fix_villes :: "(ustring \<times> real \<times> real) list" where
  "manual_fix_villes =
     [(ustr ''Versailles'', 48.804865, 2.120355),
      (ustr ''Paris'', 48.856613, 2.352222),
      (ustr ''Nancy'', 48.692054, 6.184417),
      (ustr ''Bayonne'', 43.49255, - 1.47443),
      (ustr ''Stockholm'', 59.329323, 18.068581),
      (ustr ''Berlin'', 52.520008, 13.404954),
      (ustr ''Mulhouse'', 47.747, 7.335),
      (ustr ''Meudon'', 48.8147, 2.2518),
      (ustr ''Amiens'', 49.895, 2.295),
      (ustr ''Monaco'', 43.7384, 7.4246)]"

text \<open>
  The external operation \<open>geocode(query)\<close>, the rate-limited Nominatim lookup. A call
  returns a location (\<open>Inr (Some (latitude, longitude))\<close>), returns \<open>None\<close>
  (\<open>Inr None\<close>) or raises an exception (\<open>Inl e\<close>); what it answers may depend on the
  queries sent before. The state of a run is the list of the queries sent so far, one
  entry per call of \<open>geocode\<close>.
\<close>

type_synonym 'e geocoder = "ustring list \<Rightarrow> ustring \<Rightarrow> 'e + (real \<times> real) option"

definition call_geocode ::
  "'e geocoder \<Rightarrow> ustring \<Rightarrow> ustring list \<Rightarrow> ('e + (real \<times> real) option) \<times> ustring list" where
  "call_geocode geocode query calls = (geocode calls query, calls @ [query])"

text \<open>Python's truth value of \<open>country\<close>: \<open>None\<close> and the empty string are false.\<close>

definition truthy :: "ustring option \<Rightarrow> bool" where
  "truthy country = (case country of None \<Rightarrow> False | Some s \<Rightarrow> s \<noteq> [])"

definition query_key :: "ustring \<Rightarrow> ustring option \<Rightarrow> ustring" where
  "query_key city country =
     (case country of
        Some c \<Rightarrow> if truthy country then city @ ustr '', '' @ c else city
      | None \<Rightarrow> city)"

text \<open>
  \<open>get_city_coordinates(city, country)\<close>: the pair it returns and the list of queries
  after it. The \<open>try\<close> block is the call of \<open>geocode\<close> and the test of its result; the
  \<open>except Exception\<close> handler is the \<open>Inl\<close> branch.
\<close>

definition get_city_coordinates ::
  "'e geocoder \<Rightarrow> ustring option \<Rightarrow> ustring option \<Rightarrow> ustring list
     \<Rightarrow> (real option \<times> real option) \<times> ustring list" where
  "get_city_coordinates geocode city country calls =
     (case city of
        None \<Rightarrow> ((None, None), calls)
      | Some c \<Rightarrow>
          (let key = query_key c country in
           case map_of manual_fix_villes c of
             Some (lat, lon) \<Rightarrow> ((Some lat, Some lon), calls)
           | None \<Rightarrow>
               (case call_geocode geocode key calls of
                  (Inr (Some (lat, lon)), calls') \<Rightarrow> ((Some lat, Some lon), calls')
                | (Inr None, calls') \<Rightarrow> ((None, None), calls')
                | (Inl e, calls') \<Rightarrow> ((None, None), calls'))))"

text \<open>\<open>Series.dropna()\<close>: the values that are not missing, in order.\<close>

definition dropna :: "'a option list \<Rightarrow> 'a list" where
  "dropna col = List.map_filter (\<lambda>x. x) col"

text \<open>\<open>Series.unique()\<close>: each value once, in the order of first appearance.\<close>

definition unique :: "'a list \<Rightarrow> 'a list" where
  "unique xs = rev (remdups (rev xs))"

text \<open>
  The dictionary \<open>coords_dict\<close>. Its keys are the values of the column \<open>ville\<close>; the
  later \<open>coords_dict.get(x, ...)\<close> is called with the missing value too, so a key is a
  string or \<open>None\<close>.
\<close>

type_synonym coords_dict = "ustring option \<rightharpoonup> (real option \<times> real option)"

text \<open>The loop \<open>for ville in villes_unique\<close>, on the dictionary and the list of queries.\<close>

fun geocode_loop ::
  "'e geocoder \<Rightarrow> ustring list \<Rightarrow> coords_dict \<times> ustring list \<Rightarrow> coords_dict \<times> ustring list" where
  "geocode_loop geocode [] st = st"
| "geocode_loop geocode (v # rest) (d, calls) =
     (case get_city_coordinates geocode (Some v) None calls of
        ((lat, lon), calls') \<Rightarrow> geocode_loop geocode rest (d(Some v \<mapsto> (lat, lon)), calls'))"

text \<open>\<open>d.get(k, default)\<close>.\<close>

definition dict_get :: "('k \<rightharpoonup> 'v) \<Rightarrow> 'k \<Rightarrow> 'v \<Rightarrow> 'v" where
  "dict_get d k dflt = (case d k of None \<Rightarrow> dflt | Some v \<Rightarrow> v)"

text \<open>The two \<open>Series.map\<close> calls that add the columns \<open>latitude\<close> and \<open>longitude\<close>.\<close>

definition latitude_column :: "coords_dict \<Rightarrow> ustring option list \<Rightarrow> real option list" where
  "latitude_column d col = map (\<lambda>x. fst (dict_get d x (None, None))) col"

definition longitude_column :: "coords_dict \<Rightarrow> ustring option list \<Rightarrow> real option list" where
  "longitude_column d col = map (\<lambda>x. snd (dict_get d x (None, None))) col"

text \<open>
  The script from \<open>villes_unique = ...\<close> to the two new columns, on the column
  \<open>ville\<close> of the table: the dictionary, the queries sent and the new columns.
\<close>

record geocoded =
  villes_unique :: "ustring list"
  coords :: coords_dict
  calls_made :: "ustring list"
  latitude :: "real option list"
  longitude :: "real option list"

definition geocode_villes :: "'e geocoder \<Rightarrow> ustring option list \<Rightarrow> geocoded" where
  "geocode_villes geocode col =
     (let vu = unique (dropna col) in
      case geocode_loop geocode vu (Map.empty, []) of
        (d, calls) \<Rightarrow>
          \<lparr>villes_unique = vu, coords = d, calls_made = calls,
           latitude = latitude_column d col, longitude = longitude_column d col\<rparr>)"

text \<open>
  The list \<open>parts\<close> of \<open>_normalize_col\<close>: the non-empty pieces between the underscores.
\<close>

definition pieces :: "unicode_data \<Rightarrow> ustring \<Rightarrow> ustring list" where
  "pieces U name =
     filter (\<lambda>p. p \<noteq> []) (split underscore (replace_separators (lowered U name)))"

section \<open>Properties of the string operations\<close>

lemma split_nonempty: "split sep s \<noteq> []"
  by (induction s) (auto split: list.splits)

lemma length_split_pos: "1 \<le> length (split sep s)"
  using split_nonempty [of sep s] by (cases "split sep s") auto

lemma split_no_sep: "sep \<notin> set s \<Longrightarrow> split sep s = [s]"
  by (induction s) auto

lemma length_split: "length (split sep s) = Suc (length (filter (\<lambda>c. c = sep) s))"
proof (induction s)
  case Nil then show ?case by simp
next
  case (Cons c cs)
  obtain q qs where "split sep cs = q # qs"
    using split_nonempty [of sep cs] by (cases "split sep cs") auto
  then show ?case using Cons by auto
qed

lemma split_single: "length (split sep s) = 1 \<Longrightarrow> split sep s = [s]"
proof -
  assume "length (split sep s) = 1"
  then have "filter (\<lambda>c. c = sep) s = []" by (simp add: length_split)
  then have "sep \<notin> set s" by (auto simp: filter_empty_conv)
  then show ?thesis by (rule split_no_sep)
qed

lemma split_piece_no_sep: "p \<in> set (split sep t) \<Longrightarrow> sep \<notin> set p"
proof (induction t arbitrary: p)
  case Nil then show ?case by simp
next
  case (Cons c cs)
  obtain q qs where r: "split sep cs = q # qs"
    using split_nonempty [of sep cs] by (cases "split sep cs") auto
  show ?case
  proof (cases "c = sep")
    case True with Cons show ?thesis by auto
  next
    case False
    with Cons.prems r have "p = c # q \<or> p \<in> set qs" by simp
    then show ?thesis using Cons.IH r False by auto
  qed
qed

lemma split_piece_subset: "p \<in> set (split sep t) \<Longrightarrow> set p \<subseteq> set t"
proof (induction t arbitrary: p)
  case Nil then show ?case by simp
next
  case (Cons c cs)
  obtain q qs where r: "split sep cs = q # qs"
    using split_nonempty [of sep cs] by (cases "split sep cs") auto
  show ?case
  proof (cases "c = sep")
    case True with Cons show ?thesis by auto
  next
    case False
    with Cons.prems r have "p = c # q \<or> p \<in> set qs" by simp
    then show ?thesis using Cons.IH r by fastforce
  qed
qed

lemma split_append_sep:
  "sep \<notin> set p \<Longrightarrow> split sep (p @ sep # t) = p # split sep t"
  by (induction p) auto

lemma split_join:
  "ps \<noteq> [] \<Longrightarrow> \<forall>p\<in>set ps. sep \<notin> set p \<Longrightarrow> split sep (join sep ps) = ps"
proof (induction sep ps rule: join.induct)
  case (1 sep) then show ?case by simp
next
  case (2 sep p) then show ?case by (simp add: split_no_sep)
next
  case (3 sep p q ps)
  then show ?case by (simp add: split_append_sep)
qed

lemma set_join: "set (join sep ps) \<subseteq> \<Union> (set ` set ps) \<union> {sep}"
  by (induction sep ps rule: join.induct) auto

lemma join_push: "join sep ((c # q) # qs) = c # join sep (q # qs)"
  by (cases qs) auto

lemma join_split: "join sep (split sep t) = t"
proof (induction t)
  case Nil then show ?case by simp
next
  case (Cons c cs)
  obtain q qs where r: "split sep cs = q # qs"
    using split_nonempty [of sep cs] by (cases "split sep cs") auto
  show ?case
  proof (cases "c = sep")
    case True then show ?thesis using Cons r by simp
  next
    case False then show ?thesis using Cons r by (simp add: join_push)
  qed
qed

section \<open>Properties of the column-name normalisation\<close>

lemma replace_fold:
  "u \<notin> set cs \<Longrightarrow> fold (\<lambda>ch s. replace ch u s) cs t = map (\<lambda>c. if c \<in> set cs then u else c) t"
  by (induction cs arbitrary: t) (auto simp: replace_def)

lemma replace_separators_map:
  "replace_separators t = map (\<lambda>c. if c \<in> set separators then underscore else c) t"
  unfolding replace_separators_def by (rule replace_fold) (simp add: separators_def)

lemma normalize_col_join: "normalize_col U s = join underscore (pieces U s)"
  by (simp add: normalize_col_def pieces_def Let_def)

lemma pieces_props:
  assumes "p \<in> set (pieces U s)"
  shows "p \<noteq> []" "underscore \<notin> set p" "set p \<inter> set separators = {}" "set p \<subseteq> set (lowered U s)"
proof -
  from assms have ne: "p \<noteq> []" and mem: "p \<in> set (split underscore (replace_separators (lowered U s)))"
    by (auto simp: pieces_def)
  show "p \<noteq> []" by (rule ne)
  show u: "underscore \<notin> set p" using mem by (rule split_piece_no_sep)
  have sub: "set p \<subseteq> set (replace_separators (lowered U s))" using mem by (rule split_piece_subset)
  have rs: "set (replace_separators (lowered U s)) \<subseteq> (set (lowered U s) - set separators) \<union> {underscore}"
    by (auto simp: replace_separators_map)
  show "set p \<inter> set separators = {}" using sub rs u by (auto simp: separators_def)
  show "set p \<subseteq> set (lowered U s)" using sub rs u by auto
qed

lemma is_canonical_join:
  assumes "\<forall>p\<in>set ps. p \<noteq> [] \<and> underscore \<notin> set p \<and> (\<forall>c\<in>set p. ok c)"
  shows "is_canonical ok (join underscore ps)"
proof (cases "ps = []")
  case True then show ?thesis by (simp add: is_canonical_def)
next
  case False
  then have "split underscore (join underscore ps) = ps" using assms by (simp add: split_join)
  then show ?thesis using assms by (simp add: is_canonical_def list_all_iff)
qed

lemma normalize_col_canonical:
  "is_canonical (\<lambda>c. c \<notin> set separators \<and> c \<in> set (lowered U s)) (normalize_col U s)"
  unfolding normalize_col_join
  by (rule is_canonical_join) (use pieces_props in blast)

lemma normalize_col_no_separator: "set (normalize_col U s) \<inter> set separators = {}"
proof -
  have "set (normalize_col U s) \<subseteq> \<Union> (set ` set (pieces U s)) \<union> {underscore}"
    unfolding normalize_col_join by (rule set_join)
  moreover have "\<Union> (set ` set (pieces U s)) \<inter> set separators = {}" using pieces_props(3) by blast
  moreover have "underscore \<notin> set separators" by (simp add: separators_def)
  ultimately show ?thesis by blast
qed

lemma normalize_col_fixed:
  assumes "lowered U r = r" and "is_canonical (\<lambda>c. c \<notin> set separators) r"
  shows "normalize_col U r = r"
proof (cases "r = []")
  case True
  then show ?thesis using assms(1)
    by (simp add: normalize_col_def replace_separators_map)
next
  case False
  let ?ps = "split underscore r"
  from assms(2) False have all: "\<forall>p\<in>set ?ps. p \<noteq> [] \<and> (\<forall>c\<in>set p. c \<notin> set separators)"
    by (simp add: is_canonical_def list_all_iff)
  have "set r \<subseteq> \<Union> (set ` set ?ps) \<union> {underscore}"
    using set_join [of underscore ?ps] by (simp add: join_split)
  moreover have "underscore \<notin> set separators" by (simp add: separators_def)
  ultimately have "\<forall>c\<in>set r. c \<notin> set separators" using all by blast
  then have rs: "replace_separators r = r"
    by (simp add: replace_separators_map map_idI)
  have "filter (\<lambda>p. p \<noteq> []) ?ps = ?ps" using all by (simp add: filter_id_conv)
  then show ?thesis using assms(1) rs by (simp add: normalize_col_def join_split)
qed

lemma set_strip: "set (strip t) \<subseteq> set t"
proof -
  have "set (rstrip u) \<subseteq> set u" for u
    using set_dropWhileD [of _ isspace "rev u"] by (auto simp: rstrip_def)
  moreover have "set (lstrip t) \<subseteq> set t"
    using set_dropWhileD [of _ isspace t] by (auto simp: lstrip_def)
  ultimately show ?thesis unfolding strip_def by blast
qed

lemma set_normalize_col:
  "set (normalize_col U s) \<subseteq> \<Union> (set ` set (pieces U s)) \<union> {underscore}"
  unfolding normalize_col_join by (rule set_join)

lemma lower_alnum_not_space: "lower_alnum c \<Longrightarrow> \<not> isspace c"
  by (auto simp: lower_alnum_def isspace_def)

lemma normalize_col_alnum:
  assumes "\<forall>c\<in>set (lowered U s). lower_alnum c \<or> c = underscore \<or> c \<in> set separators"
  shows "is_canonical lower_alnum (normalize_col U s)"
    and "\<forall>c\<in>set (normalize_col U s). (lower_alnum c \<or> c = underscore) \<and> \<not> isspace c"
proof -
  have ok: "lower_alnum c" if "p \<in> set (pieces U s)" "c \<in> set p" for p c
  proof -
    have "c \<in> set (lowered U s)" "c \<noteq> underscore" "c \<notin> set separators"
      using pieces_props [OF that(1)] that(2) by auto
    then show ?thesis using assms by blast
  qed
  show "is_canonical lower_alnum (normalize_col U s)"
    unfolding normalize_col_join
    by (rule is_canonical_join) (use pieces_props ok in blast)
  have "lower_alnum c \<or> c = underscore" if "c \<in> set (normalize_col U s)" for c
    using that set_normalize_col [of U s] ok by blast
  moreover have "\<not> isspace underscore" by (simp add: isspace_def)
  ultimately show "\<forall>c\<in>set (normalize_col U s). (lower_alnum c \<or> c = underscore) \<and> \<not> isspace c"
    using lower_alnum_not_space by blast
qed

lemma normalize_col_no_combining:
  assumes "combining U underscore = 0"
    and "\<forall>c\<in>set (lower U (filter (\<lambda>ch. combining U ch = 0) (nfkd U s))). combining U c = 0"
  shows "\<forall>c\<in>set (normalize_col U s). combining U c = 0"
proof -
  note assms(2)
  moreover have "set (lowered U s) \<subseteq> set (lower U (filter (\<lambda>ch. combining U ch = 0) (nfkd U s)))"
    unfolding lowered_def Let_def by (rule set_strip)
  ultimately have low: "\<forall>c\<in>set (lowered U s). combining U c = 0"
    by blast
  have "combining U c = 0" if "c \<in> set (normalize_col U s)" for c
  proof (cases "c = underscore")
    case True then show ?thesis using assms(1) by simp
  next
    case False
    then have "c \<in> \<Union> (set ` set (pieces U s))"
      using that set_normalize_col [of U s] by blast
    then obtain p where "p \<in> set (pieces U s)" "c \<in> set p"
      by blast
    then have "c \<in> set (lowered U s)" using pieces_props(4) by blast
    then show ?thesis using low by blast
  qed
  then show ?thesis by blast
qed

lemma normalize_col_only_separators:
  assumes "set (lowered U s) \<subseteq> set separators \<union> {underscore}"
  shows "normalize_col U s = []"
proof -
  have "pieces U s = []"
  proof (rule ccontr)
    assume "pieces U s \<noteq> []"
    then obtain p where p: "p \<in> set (pieces U s)" by (cases "pieces U s") auto
    have "p \<noteq> []" using p by (rule pieces_props(1))
    then obtain c where c: "c \<in> set p" by (cases p) auto
    have "c \<in> set (lowered U s)" "c \<noteq> underscore" "c \<notin> set separators"
      using pieces_props [OF p] c by auto
    then show False using assms by blast
  qed
  then show ?thesis by (simp add: normalize_col_join)
qed

lemma lowered_Nil: "nfkd U [] = [] \<Longrightarrow> lower U [] = [] \<Longrightarrow> lowered U [] = []"
  by (simp add: lowered_def strip_def lstrip_def rstrip_def)

lemma lowered_stable:
  assumes "nfkd U r = r" and "\<forall>c\<in>set r. combining U c = 0" and "lower U r = r" and "strip r = r"
  shows "lowered U r = r"
proof -
  have "filter (\<lambda>ch. combining U ch = 0) r = r" using assms(2) by (simp add: filter_id_conv)
  then show ?thesis using assms(1,3,4) by (simp add: lowered_def Let_def)
qed

section \<open>Properties of the geocoding run\<close>

lemma query_key_None: "query_key c None = c"
  by (simp add: query_key_def)

lemma get_city_coordinates_calls:
  "snd (get_city_coordinates g (Some c) country calls) =
     (if map_of manual_fix_villes c = None then calls @ [query_key c country] else calls)"
  by (auto simp: get_city_coordinates_def call_geocode_def Let_def split: option.splits sum.splits prod.splits)

lemma geocode_loop_calls:
  "snd (geocode_loop g vs (d, calls)) =
     calls @ filter (\<lambda>c. map_of manual_fix_villes c = None) vs"
proof (induction vs arbitrary: d calls)
  case Nil then show ?case by simp
next
  case (Cons v vs)
  obtain lat lon calls' where r: "get_city_coordinates g (Some v) None calls = ((lat, lon), calls')"
    by (metis prod.exhaust)
  then have "calls' = (if map_of manual_fix_villes v = None then calls @ [v] else calls)"
    using get_city_coordinates_calls [of g v None calls] by (simp add: query_key_None)
  then show ?case using r Cons.IH by simp
qed

lemma geocode_loop_dom:
  "dom (fst (geocode_loop g vs (d, calls))) = dom d \<union> Some ` set vs"
proof (induction vs arbitrary: d calls)
  case Nil then show ?case by simp
next
  case (Cons v vs)
  obtain lat lon calls' where r: "get_city_coordinates g (Some v) None calls = ((lat, lon), calls')"
    by (metis prod.exhaust)
  then show ?case using Cons.IH by auto
qed

lemma distinct_unique: "distinct (unique xs)"
  by (simp add: unique_def)

lemma set_unique: "set (unique xs) = set xs"
  by (simp add: unique_def)

lemma set_dropna: "set (dropna col) = {c. Some c \<in> set col}"
  by (induction col) (auto simp: dropna_def map_filter_simps split: option.splits)

lemma villes_unique_run: "villes_unique (geocode_villes g col) = unique (dropna col)"
  by (simp add: geocode_villes_def Let_def split: prod.splits)

lemma calls_made_run:
  "calls_made (geocode_villes g col) =
     filter (\<lambda>c. map_of manual_fix_villes c = None) (unique (dropna col))"
  using geocode_loop_calls [of g "unique (dropna col)" Map.empty "[]"]
  by (cases "geocode_loop g (unique (dropna col)) (Map.empty, [])")
     (simp add: geocode_villes_def Let_def)

lemma coords_run_dom: "dom (coords (geocode_villes g col)) = Some ` {c. Some c \<in> set col}"
  using geocode_loop_dom [of g "unique (dropna col)" Map.empty "[]"]
  by (cases "geocode_loop g (unique (dropna col)) (Map.empty, [])")
     (simp add: geocode_villes_def Let_def set_unique set_dropna)

lemma latitude_run: "latitude (geocode_villes g col) = latitude_column (coords (geocode_villes g col)) col"
  by (simp add: geocode_villes_def Let_def split: prod.splits)

lemma longitude_run: "longitude (geocode_villes g col) = longitude_column (coords (geocode_villes g col)) col"
  by (simp add: geocode_villes_def Let_def split: prod.splits)

section \<open>Properties of the location parsers\<close>

lemma parse_location_carte_total: "\<exists>r. parse_location_carte loc = Inr r"
  unfolding parse_location_carte_def
  by (cases loc; cases "map strip (split comma (the loc))" rule: unpack2.cases)
     (auto simp: getitem_def Let_def Suc_le_eq split: list.splits)

lemma parse_location_carte_musees_total: "\<exists>r. parse_location_carte_musees loc = Inr r"
  unfolding parse_location_carte_musees_def
  by (cases loc; cases "map strip (split comma (the loc))" rule: unpack2.cases)
     (auto simp: getitem_def Let_def split: list.splits)

lemma parse_location_agree:
  "length (split comma s) \<le> 3 \<Longrightarrow>
   parse_location_carte (Some s) = parse_location_carte_musees (Some s)"
  unfolding parse_location_carte_def parse_location_carte_musees_def
  by (cases "map strip (split comma s)" rule: unpack2.cases) (auto simp: getitem_def Let_def le_Suc_eq)

section \<open>Evaluation of concrete inputs\<close>

lemmas str_eval = ustr_def strip_def lstrip_def rstrip_def isspace_def getitem_def

lemmas norm_eval = normalize_col_def lowered_def unicode_fragment_def decompose_def ascii_lower_def
  replace_separators_def separators_def replace_def strip_def lstrip_def rstrip_def isspace_def
  ustr_def

lemmas geo_eval = geocode_villes_def get_city_coordinates_def call_geocode_def query_key_def
  truthy_def manual_fix_villes_def ustr_def unique_def dropna_def map_filter_simps
  latitude_column_def longitude_column_def dict_get_def Let_def

section \<open>The geocoding run\<close>

text \<open>
  Claim C1. One run calls \<open>geocode\<close> at most once per distinct city, however many rows
  name the city: the loop runs over \<open>villes_unique\<close>, which holds every non-missing value
  of the column \<open>ville\<close> exactly once, and the queries sent are exactly the cities of
  \<open>villes_unique\<close> that are not keys of \<open>manual_fix_villes\<close>, one query each, in order. So
  the number of calls is at most the number of distinct cities.
\<close>

theorem geocode_villes_calls_bounded:
  "distinct (villes_unique (geocode_villes g col))
   \<and> set (villes_unique (geocode_villes g col)) = {c. Some c \<in> set col}
   \<and> calls_made (geocode_villes g col) =
       filter (\<lambda>c. map_of manual_fix_villes c = None) (villes_unique (geocode_villes g col))
   \<and> length (calls_made (geocode_villes g col)) \<le> card {c. Some c \<in> set col}"
proof -
  have "length (calls_made (geocode_villes g col)) \<le> length (unique (dropna col))"
    by (simp add: calls_made_run)
  also have "\<dots> = card (set (unique (dropna col)))"
    by (simp add: distinct_card distinct_unique)
  finally have "length (calls_made (geocode_villes g col)) \<le> card {c. Some c \<in> set col}"
    by (simp add: set_unique set_dropna)
  then show ?thesis
    by (simp add: villes_unique_run calls_made_run distinct_unique set_unique set_dropna)
qed

text \<open>
  The column Paris, Lyon, missing, Paris, Lyon: Paris is in the manual table, so the one
  query of the run is for Lyon.
\<close>

theorem geocode_villes_calls_bounded_witness:
  "calls_made (geocode_villes (\<lambda>calls query. Inr None :: unit + (real \<times> real) option)
      [Some (ustr ''Paris''), Some (ustr ''Lyon''), None, Some (ustr ''Paris''), Some (ustr ''Lyon'')])
     = [ustr ''Lyon'']
   \<and> length (calls_made (geocode_villes (\<lambda>calls query. Inr None :: unit + (real \<times> real) option)
      [Some (ustr ''Paris''), Some (ustr ''Lyon''), None, Some (ustr ''Paris''), Some (ustr ''Lyon'')]))
     \<le> card {c. Some c \<in> set [Some (ustr ''Paris''), Some (ustr ''Lyon''), None, Some (ustr ''Paris''), Some (ustr ''Lyon'')]}"
proof -
  have "calls_made (geocode_villes (\<lambda>calls query. Inr None :: unit + (real \<times> real) option)
      [Some (ustr ''Paris''), Some (ustr ''Lyon''), None, Some (ustr ''Paris''), Some (ustr ''Lyon'')])
     = [ustr ''Lyon'']"
    by (simp add: geo_eval)
  moreover have "length (calls_made (geocode_villes (\<lambda>calls query. Inr None :: unit + (real \<times> real) option)
      [Some (ustr ''Paris''), Some (ustr ''Lyon''), None, Some (ustr ''Paris''), Some (ustr ''Lyon'')]))
     \<le> card {c. Some c \<in> set [Some (ustr ''Paris''), Some (ustr ''Lyon''), None, Some (ustr ''Paris''), Some (ustr ''Lyon'')]}"
    using geocode_villes_calls_bounded [of "\<lambda>calls query. Inr None :: unit + (real \<times> real) option"
      "[Some (ustr ''Paris''), Some (ustr ''Lyon''), None, Some (ustr ''Paris''), Some (ustr ''Lyon'')]"]
    by (elim conjE)
  ultimately show ?thesis by (rule conjI)
qed

text \<open>
  Claim C2. For a city that is a key of \<open>manual_fix_villes\<close>, \<open>get_city_coordinates\<close>
  returns the pair of the table and calls \<open>geocode\<close> not at all: the list of queries is
  unchanged, whatever the country and whatever the geocoder would answer.
\<close>

theorem manual_fix_skips_geocode:
  "map_of manual_fix_villes c = Some (lat, lon) \<Longrightarrow>
   get_city_coordinates g (Some c) country calls = ((Some lat, Some lon), calls)"
  by (simp add: get_city_coordinates_def Let_def)

text \<open>Paris, with a geocoder that raises on every call.\<close>

theorem manual_fix_skips_geocode_witness:
  "map_of manual_fix_villes (ustr ''Paris'') = Some (48.856613, 2.352222)
   \<and> get_city_coordinates (\<lambda>calls query. Inl ()) (Some (ustr ''Paris'')) (Some (ustr ''France'')) []
       = ((Some 48.856613, Some 2.352222), [])"
proof -
  have h: "map_of manual_fix_villes (ustr ''Paris'') = Some (48.856613, 2.352222)"
    by (simp add: manual_fix_villes_def ustr_def)
  show ?thesis
    using h manual_fix_skips_geocode [OF h, of "\<lambda>calls query. Inl ()" "Some (ustr ''France'')" "[]"]
    by simp
qed

text \<open>
  Claim C3. When \<open>get_city_coordinates\<close> calls \<open>geocode\<close> (the city is not in the manual
  table) and the call raises an exception or returns \<open>None\<close>, the result is
  \<open>(None, None)\<close> and nothing is raised: the handler \<open>except Exception\<close> turns every
  exception of the call into that value. A run therefore gives every distinct city an entry
  of \<open>coords_dict\<close>, whatever the geocoder answers.
\<close>

theorem geocode_failure_is_unresolved:
  "(map_of manual_fix_villes c = None \<and>
      (g calls (query_key c country) = Inl e \<or> g calls (query_key c country) = Inr None) \<longrightarrow>
      get_city_coordinates g (Some c) country calls = ((None, None), calls @ [query_key c country]))
   \<and> dom (coords (geocode_villes g col)) = Some ` {c. Some c \<in> set col}"
  by (auto simp: get_city_coordinates_def call_geocode_def Let_def coords_run_dom)

text \<open>Lyon, France, with a geocoder that raises on every call.\<close>

theorem geocode_failure_is_unresolved_witness:
  "map_of manual_fix_villes (ustr ''Lyon'') = None
   \<and> get_city_coordinates (\<lambda>calls query. Inl ()) (Some (ustr ''Lyon'')) (Some (ustr ''France'')) []
       = ((None, None), [ustr ''Lyon, France''])
   \<and> coords (geocode_villes (\<lambda>calls query. Inl ()) [Some (ustr ''Lyon''), None]) (Some (ustr ''Lyon''))
       = Some (None, None)"
proof -
  have h: "map_of manual_fix_villes (ustr ''Lyon'') = None"
    by (simp add: manual_fix_villes_def ustr_def)
  have k: "query_key (ustr ''Lyon'') (Some (ustr ''France'')) = ustr ''Lyon, France''"
    by (simp add: query_key_def truthy_def ustr_def)
  have c: "coords (geocode_villes (\<lambda>calls query. Inl ()) [Some (ustr ''Lyon''), None]) (Some (ustr ''Lyon''))
       = Some (None, None)"
    by (simp add: geo_eval)
  show ?thesis
    using h k c geocode_failure_is_unresolved [of "ustr ''Lyon''" "\<lambda>calls query. Inl ()" "[]"
        "Some (ustr ''France'')" "()" "[Some (ustr ''Lyon''), None]"]
    by simp
qed

text \<open>
  Claim C8. The columns \<open>latitude\<close> and \<open>longitude\<close> have one value per row of the table,
  in the order of the rows: the value of row \<open>i\<close> is read from \<open>coords_dict\<close> at the city
  of row \<open>i\<close>. A row whose city is missing or is not a key of the dictionary gets \<open>None\<close>
  for both, and nothing is raised. The last part holds for any dictionary \<open>d\<close>, since in
  a run every city of the column is a key.
\<close>

theorem coordinates_columns_aligned:
  "length (latitude (geocode_villes g col)) = length col
   \<and> length (longitude (geocode_villes g col)) = length col
   \<and> (\<forall>i < length col.
        latitude (geocode_villes g col) ! i
          = fst (dict_get (coords (geocode_villes g col)) (col ! i) (None, None))
      \<and> longitude (geocode_villes g col) ! i
          = snd (dict_get (coords (geocode_villes g col)) (col ! i) (None, None)))
   \<and> (\<forall>i < length col. col ! i = None \<or> coords (geocode_villes g col) (col ! i) = None \<longrightarrow>
        latitude (geocode_villes g col) ! i = None \<and> longitude (geocode_villes g col) ! i = None)
   \<and> (\<forall>i < length col. d (col ! i) = None \<longrightarrow>
        latitude_column d col ! i = None \<and> longitude_column d col ! i = None)"
proof -
  have none: "coords (geocode_villes g col) None = None"
    using coords_run_dom [of g col] by (metis domIff imageE option.distinct(1))
  show ?thesis
    using none by (auto simp: latitude_run longitude_run latitude_column_def longitude_column_def dict_get_def)
qed

text \<open>
  The column Paris, missing, Lyon, Brest, Paris with a geocoder that finds Lyon and raises
  on every other query.
\<close>

theorem coordinates_columns_aligned_witness:
  "latitude (geocode_villes
      (\<lambda>calls query. if query = ustr ''Lyon'' then Inr (Some (45.76, 4.83)) else Inl ())
      [Some (ustr ''Paris''), None, Some (ustr ''Lyon''), Some (ustr ''Brest''), Some (ustr ''Paris'')])
     = [Some 48.856613, None, Some 45.76, None, Some 48.856613]
   \<and> longitude (geocode_villes
      (\<lambda>calls query. if query = ustr ''Lyon'' then Inr (Some (45.76, 4.83)) else Inl ())
      [Some (ustr ''Paris''), None, Some (ustr ''Lyon''), Some (ustr ''Brest''), Some (ustr ''Paris'')])
     = [Some 2.352222, None, Some 4.83, None, Some 2.352222]
   \<and> latitude_column Map.empty [Some (ustr ''Paris'')] ! 0 = None"
proof -
  have "latitude (geocode_villes
      (\<lambda>calls query. if query = ustr ''Lyon'' then Inr (Some (45.76, 4.83)) else Inl ())
      [Some (ustr ''Paris''), None, Some (ustr ''Lyon''), Some (ustr ''Brest''), Some (ustr ''Paris'')])
     = [Some 48.856613, None, Some 45.76, None, Some 48.856613]"
    by (simp add: geo_eval)
  moreover have "longitude (geocode_villes
      (\<lambda>calls query. if query = ustr ''Lyon'' then Inr (Some (45.76, 4.83)) else Inl ())
      [Some (ustr ''Paris''), None, Some (ustr ''Lyon''), Some (ustr ''Brest''), Some (ustr ''Paris'')])
     = [Some 2.352222, None, Some 4.83, None, Some 2.352222]"
    by (simp add: geo_eval)
  ultimately show ?thesis
    using coordinates_columns_aligned [of
      "\<lambda>calls query. if query = ustr ''Lyon'' then Inr (Some (45.76, 4.83)) else Inl ()"
      "[Some (ustr ''Paris''), None, Some (ustr ''Lyon''), Some (ustr ''Brest''), Some (ustr ''Paris'')]"
      "Map.empty"]
    by (simp add: latitude_column_def dict_get_def)
qed

section \<open>The column-name normalisation\<close>

text \<open>
  Claim C4, as stated, fails: \<open>_normalize_col\<close> replaces the twelve characters of
  \<open>separators\<close> only, and \<open>strip()\<close> removes whitespace at the two ends only, so a tab
  inside the name stays. The name \<open>a<TAB>b\<close> is returned unchanged: the output holds a
  whitespace character, which is outside \<open>[a-z0-9_]\<close>, and does not match
  \<open>segment(_segment)*\<close> with lower-case alphanumeric segments.
\<close>

theorem normalize_col_keeps_tab:
  "normalize_col unicode_fragment [97, 9, 98] = [97, 9, 98]
   \<and> isspace 9 \<and> \<not> lower_alnum 9
   \<and> \<not> is_canonical lower_alnum (normalize_col unicode_fragment [97, 9, 98])"
  by (simp add: norm_eval is_canonical_def lower_alnum_def)

text \<open>
  Claim C4, amended. For every input, the output of \<open>_normalize_col\<close> holds none of the
  twelve separator characters, and it is empty or a sequence of non-empty pieces joined by
  single underscores, each piece made of characters of the lower-cased, stripped,
  mark-free form of the input that are no separators. When that form holds only
  characters of \<open>[a-z0-9]\<close>, underscores and separators, the output matches
  \<open>segment(_segment)*\<close> with lower-case alphanumeric segments, so it has no character
  outside \<open>[a-z0-9_]\<close> and no whitespace. The output has no combining mark when
  \<open>lower()\<close> of the decomposed, mark-free input holds none and the underscore is none:
  the accents that NFKD splits off are dropped, and no later step brings a mark back.
  An input whose form holds only separators and underscores, and the empty input (NFKD
  and \<open>lower()\<close> of the empty string being empty), yield the empty string.
\<close>

theorem normalize_col_shape:
  "set (normalize_col U s) \<inter> set separators = {}
   \<and> is_canonical (\<lambda>c. c \<notin> set separators \<and> c \<in> set (lowered U s)) (normalize_col U s)
   \<and> ((\<forall>c\<in>set (lowered U s). lower_alnum c \<or> c = underscore \<or> c \<in> set separators) \<longrightarrow>
        is_canonical lower_alnum (normalize_col U s)
        \<and> (\<forall>c\<in>set (normalize_col U s). (lower_alnum c \<or> c = underscore) \<and> \<not> isspace c))
   \<and> (combining U underscore = 0
        \<and> (\<forall>c\<in>set (lower U (filter (\<lambda>ch. combining U ch = 0) (nfkd U s))).
              combining U c = 0) \<longrightarrow>
        (\<forall>c\<in>set (normalize_col U s). combining U c = 0))
   \<and> (set (lowered U s) \<subseteq> set separators \<union> {underscore} \<longrightarrow> normalize_col U s = [])
   \<and> (nfkd U [] = [] \<and> lower U [] = [] \<longrightarrow> normalize_col U [] = [])"
proof (intro conjI impI)
  show "set (normalize_col U s) \<inter> set separators = {}" by (rule normalize_col_no_separator)
  show "is_canonical (\<lambda>c. c \<notin> set separators \<and> c \<in> set (lowered U s)) (normalize_col U s)"
    by (rule normalize_col_canonical)
next
  assume a: "\<forall>c\<in>set (lowered U s). lower_alnum c \<or> c = underscore \<or> c \<in> set separators"
  show "is_canonical lower_alnum (normalize_col U s)" using a by (rule normalize_col_alnum(1))
  show "\<forall>c\<in>set (normalize_col U s). (lower_alnum c \<or> c = underscore) \<and> \<not> isspace c"
    using a by (rule normalize_col_alnum(2))
next
  assume "combining U underscore = 0
        \<and> (\<forall>c\<in>set (lower U (filter (\<lambda>ch. combining U ch = 0) (nfkd U s))).
              combining U c = 0)"
  then show "\<forall>c\<in>set (normalize_col U s). combining U c = 0"
    using normalize_col_no_combining [of U s] by blast
next
  assume "set (lowered U s) \<subseteq> set separators \<union> {underscore}"
  then show "normalize_col U s = []" by (rule normalize_col_only_separators)
next
  assume "nfkd U [] = [] \<and> lower U [] = []"
  then have "lowered U [] = []" by (simp add: lowered_Nil)
  then show "normalize_col U [] = []" by (simp add: normalize_col_only_separators)
qed

text \<open>
  The names \<open>Date de cr<e acute>ation\<close>, \<open>- / -\<close> and the empty name, with the tables of
  \<open>unicode_fragment\<close>.
\<close>

theorem normalize_col_shape_witness:
  "normalize_col unicode_fragment
      [68, 97, 116, 101, 32, 100, 101, 32, 99, 114, 233, 97, 116, 105, 111, 110]
     = ustr ''date_de_creation''
   \<and> is_canonical lower_alnum (normalize_col unicode_fragment
      [68, 97, 116, 101, 32, 100, 101, 32, 99, 114, 233, 97, 116, 105, 111, 110])
   \<and> list_all (\<lambda>c. combining unicode_fragment c = 0) (normalize_col unicode_fragment
      [68, 97, 116, 101, 32, 100, 101, 32, 99, 114, 233, 97, 116, 105, 111, 110])
   \<and> normalize_col unicode_fragment (ustr ''- / -'') = []
   \<and> normalize_col unicode_fragment [] = []"
proof -
  let ?s = "[68, 97, 116, 101, 32, 100, 101, 32, 99, 114, 233, 97, 116, 105, 111, 110] :: ustring"
  have l: "lowered unicode_fragment ?s = ustr ''date de creation''"
    by (simp add: lowered_def unicode_fragment_def decompose_def ascii_lower_def strip_def
        lstrip_def rstrip_def isspace_def ustr_def)
  have h1: "\<forall>c\<in>set (lowered unicode_fragment ?s). lower_alnum c \<or> c = underscore \<or> c \<in> set separators"
    unfolding l by (simp add: ustr_def lower_alnum_def separators_def)
  have h2: "set (lowered unicode_fragment (ustr ''- / -'')) \<subseteq> set separators \<union> {underscore}"
    by (simp add: lowered_def unicode_fragment_def decompose_def ascii_lower_def strip_def
        lstrip_def rstrip_def isspace_def ustr_def separators_def)
  have h3: "nfkd unicode_fragment [] = [] \<and> lower unicode_fragment [] = []"
    by (simp add: unicode_fragment_def)
  have e: "normalize_col unicode_fragment ?s = ustr ''date_de_creation''"
    by (simp add: norm_eval)
  have c: "is_canonical lower_alnum (normalize_col unicode_fragment ?s)"
    by (rule normalize_col_shape [THEN conjunct2, THEN conjunct2, THEN conjunct1, THEN mp,
          OF h1, THEN conjunct1])
  have n: "normalize_col unicode_fragment (ustr ''- / -'') = []"
    by (rule normalize_col_shape [THEN conjunct2, THEN conjunct2, THEN conjunct2, THEN conjunct2,
          THEN conjunct1, THEN mp, OF h2])
  have m: "normalize_col unicode_fragment [] = []"
    by (rule normalize_col_shape [THEN conjunct2, THEN conjunct2, THEN conjunct2, THEN conjunct2,
          THEN conjunct2, THEN mp, OF h3])
  have m1: "filter (\<lambda>ch. combining unicode_fragment ch = 0) (nfkd unicode_fragment ?s)
      = ustr ''Date de creation''"
    by (simp add: unicode_fragment_def decompose_def ustr_def)
  have m2: "lower unicode_fragment (ustr ''Date de creation'') = ustr ''date de creation''"
    by (simp add: unicode_fragment_def ascii_lower_def ustr_def)
  have h4: "combining unicode_fragment underscore = 0
      \<and> (\<forall>c\<in>set (lower unicode_fragment
              (filter (\<lambda>ch. combining unicode_fragment ch = 0) (nfkd unicode_fragment ?s))).
            combining unicode_fragment c = 0)"
    unfolding m1 m2 by (simp add: unicode_fragment_def ustr_def)
  have "\<forall>c\<in>set (normalize_col unicode_fragment ?s). combining unicode_fragment c = 0"
    by (rule normalize_col_shape [THEN conjunct2, THEN conjunct2, THEN conjunct2, THEN conjunct1,
          THEN mp, OF h4])
  then have k: "list_all (\<lambda>c. combining unicode_fragment c = 0) (normalize_col unicode_fragment ?s)"
    by (simp add: list_all_iff)
  from e c k n m show ?thesis by (intro conjI)
qed

text \<open>
  Claim C5, as stated, fails: \<open>_normalize_col("_<TAB>a")\<close> is \<open>"<TAB>a"\<close>, since the tab
  is neither at an end of the string when \<open>strip()\<close> runs nor one of the separators, and
  \<open>_normalize_col("<TAB>a")\<close> is \<open>"a"\<close>, since now \<open>strip()\<close> removes the tab.
\<close>

theorem normalize_col_not_idempotent:
  "normalize_col unicode_fragment [95, 9, 97] = [9, 97]
   \<and> normalize_col unicode_fragment (normalize_col unicode_fragment [95, 9, 97]) = [97]
   \<and> normalize_col unicode_fragment (normalize_col unicode_fragment [95, 9, 97])
       \<noteq> normalize_col unicode_fragment [95, 9, 97]"
proof -
  have a: "normalize_col unicode_fragment [95, 9, 97] = [9, 97]" by (simp add: norm_eval)
  have b: "normalize_col unicode_fragment [9, 97] = [97]" by (simp add: norm_eval)
  show ?thesis by (simp add: a b)
qed

text \<open>
  Claim C5, amended. \<open>_normalize_col(_normalize_col(s))\<close> equals \<open>_normalize_col(s)\<close>
  whenever the first steps of the second pass (NFKD, dropping the combining marks,
  \<open>lower()\<close>, \<open>strip()\<close>) leave the output of the first pass unchanged; the remaining
  steps (the replacements, the split, the filter and the join) always do. In particular
  it holds when NFKD and \<open>lower()\<close> leave that output unchanged, it has no combining
  mark, and it neither begins nor ends with whitespace. The function is deterministic: it
  is a function of its input and the Unicode tables.
\<close>

theorem normalize_col_idempotent_when_stable:
  "(lowered U (normalize_col U s) = normalize_col U s \<longrightarrow>
      normalize_col U (normalize_col U s) = normalize_col U s)
   \<and> (nfkd U (normalize_col U s) = normalize_col U s
        \<and> (\<forall>c\<in>set (normalize_col U s). combining U c = 0)
        \<and> lower U (normalize_col U s) = normalize_col U s
        \<and> strip (normalize_col U s) = normalize_col U s \<longrightarrow>
      normalize_col U (normalize_col U s) = normalize_col U s)"
proof -
  have canon: "is_canonical (\<lambda>c. c \<notin> set separators) (normalize_col U s)"
    unfolding normalize_col_join
    by (rule is_canonical_join) (use pieces_props in blast)
  have fixed: "normalize_col U (normalize_col U s) = normalize_col U s"
    if "lowered U (normalize_col U s) = normalize_col U s"
    using that canon by (rule normalize_col_fixed)
  show ?thesis
  proof (intro conjI impI)
    assume "lowered U (normalize_col U s) = normalize_col U s"
    then show "normalize_col U (normalize_col U s) = normalize_col U s" by (rule fixed)
  next
    assume "nfkd U (normalize_col U s) = normalize_col U s
        \<and> (\<forall>c\<in>set (normalize_col U s). combining U c = 0)
        \<and> lower U (normalize_col U s) = normalize_col U s
        \<and> strip (normalize_col U s) = normalize_col U s"
    then have "lowered U (normalize_col U s) = normalize_col U s"
      by (intro lowered_stable) simp_all
    then show "normalize_col U (normalize_col U s) = normalize_col U s" by (rule fixed)
  qed
qed

text \<open>The name \<open>Lieu de conservation\<close>, with the tables of \<open>unicode_fragment\<close>.\<close>

theorem normalize_col_idempotent_when_stable_witness:
  "normalize_col unicode_fragment (ustr ''Lieu de conservation'') = ustr ''lieu_de_conservation''
   \<and> lowered unicode_fragment (normalize_col unicode_fragment (ustr ''Lieu de conservation''))
     = normalize_col unicode_fragment (ustr ''Lieu de conservation'')
   \<and> strip (normalize_col unicode_fragment (ustr ''Lieu de conservation''))
     = normalize_col unicode_fragment (ustr ''Lieu de conservation'')
   \<and> normalize_col unicode_fragment (normalize_col unicode_fragment (ustr ''Lieu de conservation''))
     = normalize_col unicode_fragment (ustr ''Lieu de conservation'')"
proof -
  let ?r = "normalize_col unicode_fragment (ustr ''Lieu de conservation'')"
  have e: "?r = ustr ''lieu_de_conservation''"
    by (simp add: norm_eval)
  have h: "lowered unicode_fragment ?r = ?r"
    unfolding e
    by (simp add: lowered_def unicode_fragment_def decompose_def ascii_lower_def strip_def
        lstrip_def rstrip_def isspace_def ustr_def)
  have k: "nfkd unicode_fragment ?r = ?r
        \<and> (\<forall>c\<in>set ?r. combining unicode_fragment c = 0)
        \<and> lower unicode_fragment ?r = ?r
        \<and> strip ?r = ?r"
    unfolding e
    by (simp add: unicode_fragment_def decompose_def ascii_lower_def strip_def
        lstrip_def rstrip_def isspace_def ustr_def)
  have i: "normalize_col unicode_fragment ?r = ?r"
    by (rule normalize_col_idempotent_when_stable [THEN conjunct1, THEN mp, OF h])
  have j: "normalize_col unicode_fragment ?r = ?r"
    by (rule normalize_col_idempotent_when_stable [THEN conjunct2, THEN mp, OF k])
  from k have s: "strip ?r = ?r" by (elim conjE)
  from e h s i show ?thesis by (intro conjI)
qed

section \<open>The two location parsers\<close>

text \<open>
  Claim C6. The two \<open>parse_location\<close> functions return the same result for every string
  with at most three comma-delimited parts and for the missing value; both map
  \<open>Louvre, Paris, France\<close> to the museum Louvre, the city Paris and the country France.
\<close>

theorem parse_location_variants_agree:
  "(length (split comma s) \<le> 3 \<longrightarrow>
      parse_location_carte (Some s) = parse_location_carte_musees (Some s))
   \<and> parse_location_carte None = parse_location_carte_musees None
   \<and> parse_location_carte (Some (ustr ''Louvre, Paris, France''))
       = Inr \<lparr>pays = Some (ustr ''France''), ville = Some (ustr ''Paris''),
              musee = Some (ustr ''Louvre'')\<rparr>
   \<and> parse_location_carte_musees (Some (ustr ''Louvre, Paris, France''))
       = Inr \<lparr>pays = Some (ustr ''France''), ville = Some (ustr ''Paris''),
              musee = Some (ustr ''Louvre'')\<rparr>"
proof (intro conjI impI)
  assume "length (split comma s) \<le> 3"
  then show "parse_location_carte (Some s) = parse_location_carte_musees (Some s)"
    by (rule parse_location_agree)
next
  show "parse_location_carte None = parse_location_carte_musees None"
    by (simp add: parse_location_carte_def parse_location_carte_musees_def)
next
  show "parse_location_carte (Some (ustr ''Louvre, Paris, France''))
       = Inr \<lparr>pays = Some (ustr ''France''), ville = Some (ustr ''Paris''),
              musee = Some (ustr ''Louvre'')\<rparr>"
    by (simp add: parse_location_carte_def str_eval)
next
  show "parse_location_carte_musees (Some (ustr ''Louvre, Paris, France''))
       = Inr \<lparr>pays = Some (ustr ''France''), ville = Some (ustr ''Paris''),
              musee = Some (ustr ''Louvre'')\<rparr>"
    by (simp add: parse_location_carte_musees_def str_eval)
qed

text \<open>The string \<open>Orsay, Paris\<close>, of two parts.\<close>

theorem parse_location_variants_agree_witness:
  "length (split comma (ustr ''Orsay, Paris'')) \<le> 3
   \<and> parse_location_carte (Some (ustr ''Orsay, Paris''))
       = parse_location_carte_musees (Some (ustr ''Orsay, Paris''))
   \<and> parse_location_carte_musees (Some (ustr ''Orsay, Paris''))
       = Inr \<lparr>pays = None, ville = Some (ustr ''Paris''), musee = Some (ustr ''Orsay'')\<rparr>"
proof -
  have h: "length (split comma (ustr ''Orsay, Paris'')) \<le> 3"
    by (simp add: ustr_def)
  have e: "parse_location_carte_musees (Some (ustr ''Orsay, Paris''))
       = Inr \<lparr>pays = None, ville = Some (ustr ''Paris''), musee = Some (ustr ''Orsay'')\<rparr>"
    by (simp add: parse_location_carte_musees_def str_eval)
  have "parse_location_carte (Some (ustr ''Orsay, Paris''))
       = parse_location_carte_musees (Some (ustr ''Orsay, Paris''))"
    using h parse_location_variants_agree [of "ustr ''Orsay, Paris''"] by (elim conjE impE)
  with h e show ?thesis by (intro conjI)
qed

text \<open>
  With four parts the two functions differ: \<open>carte.py\<close> takes the last part as the
  country, \<open>pages/carte_musees.py\<close> the third.
\<close>

lemma parse_location_variants_differ:
  "parse_location_carte (Some (ustr ''Louvre, Paris, Ile-de-France, France''))
     = Inr \<lparr>pays = Some (ustr ''France''), ville = Some (ustr ''Paris''), musee = Some (ustr ''Louvre'')\<rparr>
   \<and> parse_location_carte_musees (Some (ustr ''Louvre, Paris, Ile-de-France, France''))
     = Inr \<lparr>pays = Some (ustr ''Ile-de-France''), ville = Some (ustr ''Paris''), musee = Some (ustr ''Louvre'')\<rparr>"
  by (simp add: parse_location_carte_def parse_location_carte_musees_def str_eval)

text \<open>
  Claim C7. Both \<open>parse_location\<close> functions return the all-null triple for the missing
  value; for a string of exactly one comma-delimited part they return that part, stripped,
  as the museum, with city and country null; and they raise on no input (the result is
  never an error).
\<close>

theorem parse_location_null_and_single:
  "parse_location_carte None = Inr all_null
   \<and> parse_location_carte_musees None = Inr all_null
   \<and> (length (split comma s) = 1 \<longrightarrow>
        parse_location_carte (Some s) = Inr \<lparr>pays = None, ville = None, musee = Some (strip s)\<rparr>
      \<and> parse_location_carte_musees (Some s)
          = Inr \<lparr>pays = None, ville = None, musee = Some (strip s)\<rparr>)
   \<and> (\<exists>r. parse_location_carte loc = Inr r)
   \<and> (\<exists>r. parse_location_carte_musees loc = Inr r)"
proof (intro conjI impI)
  show "parse_location_carte None = Inr all_null"
    by (simp add: parse_location_carte_def all_null_def)
  show "parse_location_carte_musees None = Inr all_null"
    by (simp add: parse_location_carte_musees_def all_null_def)
  show "\<exists>r. parse_location_carte loc = Inr r" by (rule parse_location_carte_total)
  show "\<exists>r. parse_location_carte_musees loc = Inr r" by (rule parse_location_carte_musees_total)
next
  assume "length (split comma s) = 1"
  then have one: "split comma s = [s]" by (rule split_single)
  show "parse_location_carte (Some s) = Inr \<lparr>pays = None, ville = None, musee = Some (strip s)\<rparr>"
    by (simp add: parse_location_carte_def one getitem_def)
  show "parse_location_carte_musees (Some s) = Inr \<lparr>pays = None, ville = None, musee = Some (strip s)\<rparr>"
    by (simp add: parse_location_carte_musees_def one getitem_def)
qed

text \<open>The string \<open>" Louvre "\<close>.\<close>

theorem parse_location_null_and_single_witness:
  "length (split comma (ustr '' Louvre '')) = 1
   \<and> parse_location_carte (Some (ustr '' Louvre ''))
       = Inr \<lparr>pays = None, ville = None, musee = Some (ustr ''Louvre'')\<rparr>
   \<and> parse_location_carte_musees (Some (ustr '' Louvre ''))
       = Inr \<lparr>pays = None, ville = None, musee = Some (ustr ''Louvre'')\<rparr>"
proof -
  have h: "length (split comma (ustr '' Louvre '')) = 1" by (simp add: ustr_def)
  have s: "strip (ustr '' Louvre '') = ustr ''Louvre''" by (simp add: str_eval)
  show ?thesis
    using h s parse_location_null_and_single [of "ustr '' Louvre ''"] by simp
qed

text \<open>
  Claim C10. For every string, \<open>split(",")\<close> yields at least one part, so one of the
  first two branches of \<open>parse_location\<close> is taken and the all-null branch is never
  reached: the museum of the result is never null. The empty string yields the museum
  \<open>""\<close> with city and country null.
\<close>

theorem parse_location_museum_never_null:
  "1 \<le> length (map strip (split comma s))
   \<and> (2 \<le> length (map strip (split comma s)) \<or> length (map strip (split comma s)) = 1)
   \<and> (\<exists>r. parse_location_carte (Some s) = Inr r \<and> musee r \<noteq> None)
   \<and> (\<exists>r. parse_location_carte_musees (Some s) = Inr r \<and> musee r \<noteq> None)
   \<and> parse_location_carte (Some []) = Inr \<lparr>pays = None, ville = None, musee = Some []\<rparr>
   \<and> parse_location_carte_musees (Some []) = Inr \<lparr>pays = None, ville = None, musee = Some []\<rparr>"
proof (intro conjI)
  show l: "1 \<le> length (map strip (split comma s))"
    using length_split_pos [of comma s] by simp
  then show "2 \<le> length (map strip (split comma s)) \<or> length (map strip (split comma s)) = 1"
    by linarith
  show "\<exists>r. parse_location_carte (Some s) = Inr r \<and> musee r \<noteq> None"
    unfolding parse_location_carte_def using split_nonempty [of comma s]
    by (cases "map strip (split comma s)" rule: unpack2.cases)
       (auto simp: getitem_def Let_def Suc_le_eq split: list.splits)
  show "\<exists>r. parse_location_carte_musees (Some s) = Inr r \<and> musee r \<noteq> None"
    unfolding parse_location_carte_musees_def using split_nonempty [of comma s]
    by (cases "map strip (split comma s)" rule: unpack2.cases)
       (auto simp: getitem_def Let_def split: list.splits)
  show "parse_location_carte (Some []) = Inr \<lparr>pays = None, ville = None, musee = Some []\<rparr>"
    by (simp add: parse_location_carte_def str_eval)
  show "parse_location_carte_musees (Some []) = Inr \<lparr>pays = None, ville = None, musee = Some []\<rparr>"
    by (simp add: parse_location_carte_musees_def str_eval)
qed

end
